theory Spec2Isabelle
  imports Main
begin

section \<open>DOM values\<close>

text \<open>
  The library works on DOM objects. An element is a tree node with a namespace URI
  (a string or null), a local name, attributes keyed by (namespace, local name) and
  element children. A document owns at most one root element (\<open>documentElement\<close> is
  nullable in the DOM). Schema types refer to each other by name through attributes,
  so a restriction or extension cycle lives in the library's lookups, not in a tree.
\<close>

datatype node = Node
  (namespaceURI: "string option")
  (localName: string)
  (attributes: "((string option \<times> string) \<times> string) list")
  (children: "node list")

datatype document = Document (documentElement: "node option")

text \<open>\<open>xsd.findElement\<close> is called on documents and on elements alike.\<close>

datatype dom = Doc document | Elem node

text \<open>A qualified name as returned by \<open>xsd.getTypeFromNodeAttr\<close>.\<close>

record qname =
  qn_namespaceURI :: "string option"
  qn_name :: string

text \<open>The only exception the source can raise: a property read on null or undefined.\<close>

datatype error = TypeError

definition getAttributeNS :: "node \<Rightarrow> string option \<Rightarrow> string \<Rightarrow> string option" where
  "getAttributeNS n ns name = map_of (attributes n) (ns, name)"

text \<open>An unprefixed attribute name is in no namespace.\<close>

definition getAttribute :: "node \<Rightarrow> string \<Rightarrow> string option" where
  "getAttribute n name = getAttributeNS n None name"

text \<open>A null used as a property name of a JavaScript object is the string "null".\<close>

definition propertyKey :: "string option \<Rightarrow> string" where
  "propertyKey k = (case k of None \<Rightarrow> ''null'' | Some s \<Rightarrow> s)"

text \<open>\<open>name || e\<close>: undefined and the empty string are falsy.\<close>

definition truthy :: "string option \<Rightarrow> bool" where
  "truthy s = (case s of None \<Rightarrow> False | Some t \<Rightarrow> t \<noteq> [])"

section \<open>The collaborators\<close>

text \<open>
  The module \<open>xsd\<close> (required as \<open>lib/xsd\<close>) is not part of the sources. Its
  functions and its two namespace constants are taken as a parameter: every definition
  below receives a record of them, and every general theorem holds for any such record.
  \<open>xsd_findTypeByName\<close> yields one node or null, as \<open>findTypeByName\<close> of the
  library uses its result (\<open>if (xsdNode) return xsdNode\<close>). The field
  \<open>dom_ancestors\<close> gives the chain of parent elements of a node, nearest first; tree
  values carry no parent pointer.
\<close>

record xsd =
  xsd_xs :: string
  xsd_xsi :: string
  xsd_parseToDom :: "string \<Rightarrow> document"
  xsd_findElement :: "dom \<Rightarrow> string \<Rightarrow> node option"
  xsd_findTypeByName :: "document \<Rightarrow> string \<Rightarrow> node option"
  xsd_getTypeFromNodeAttr :: "node \<Rightarrow> string \<Rightarrow> string option \<Rightarrow> qname option"
  xsd_getEmbeddedType :: "node \<Rightarrow> node option"
  xsd_findRestrictingFacets :: "node \<Rightarrow> node list"
  xsd_getComplexTypeContent :: "node \<Rightarrow> node"
  xsd_getComplexTypeElements :: "node \<Rightarrow> node list"
  xsd_getComplexTypeAsserts :: "node \<Rightarrow> node list"
  dom_ancestors :: "node \<Rightarrow> node list"

text \<open>
  Modelled from the spec: \<open>xsd.getFirstFilteredAncestor\<close> (in the absent \<open>lib/xsd\<close>)
  walks the ancestors of a node, nearest first, invokes the predicate on each and
  returns the nearest one for which it holds, the caller having observed every ancestor
  visited on the way. The predicate of the source has an effect (it pushes onto an
  array), so it takes and returns a state.
\<close>

fun getFirstFilteredAncestor_walk ::
  "node list \<Rightarrow> (node \<Rightarrow> 's \<Rightarrow> bool \<times> 's) \<Rightarrow> 's \<Rightarrow> node option \<times> 's" where
  "getFirstFilteredAncestor_walk [] filt s = (None, s)"
| "getFirstFilteredAncestor_walk (p # ps) filt s =
     (case filt p s of
        (True, s') \<Rightarrow> (Some p, s')
      | (False, s') \<Rightarrow> getFirstFilteredAncestor_walk ps filt s')"

definition getFirstFilteredAncestor ::
  "xsd \<Rightarrow> node \<Rightarrow> (node \<Rightarrow> 's \<Rightarrow> bool \<times> 's) \<Rightarrow> 's \<Rightarrow> node option \<times> 's" where
  "getFirstFilteredAncestor ops n filt s = getFirstFilteredAncestor_walk (dom_ancestors ops n) filt s"

section \<open>The store of the base class\<close>

text \<open>
  The library object keeps its documents in \<open>this.items\<close>, an object used as a map
  from namespace keys to arrays of documents.
\<close>

record library =
  items :: "string \<rightharpoonup> document list"

text \<open>
  Modelled from the spec: \<open>exists\<close> and \<open>getItem\<close> of the base class \<open>Library\<close>
  (required as \<open>lib/Library\<close>, absent from the sources) follow the NamespaceStore
  contract \<open>exists(key) -> bool\<close>, \<open>get(key) -> value?\<close> over the same \<open>items\<close>
  that \<open>addItem\<close> writes.
\<close>

definition exists :: "library \<Rightarrow> string option \<Rightarrow> bool" where
  "exists lib k = (propertyKey k \<in> dom (items lib))"

definition getItem :: "library \<Rightarrow> string option \<Rightarrow> document list option" where
  "getItem lib k = items lib (propertyKey k)"

section \<open>Registration\<close>

text \<open>
  \<open>addItem\<close>: the namespace \<open>ns\<close> (\<open>addItem_ns\<close>) is the given name when that is
  truthy, else the \<open>targetNamespace\<close> attribute of the root element (null when
  absent); reading the attribute of a missing root raises. The document is pushed onto
  the array of that key, a fresh array when the key does not exist.
\<close>

definition addItem_ns :: "document \<Rightarrow> string option \<Rightarrow> error + string option" where
  "addItem_ns defn name =
     (if truthy name then Inr name
      else (case documentElement defn of
              None \<Rightarrow> Inl TypeError
            | Some root \<Rightarrow> Inr (getAttributeNS root None ''targetNamespace'')))"

definition addItem :: "library \<Rightarrow> document \<Rightarrow> string option \<Rightarrow> error + library" where
  "addItem lib defn name =
     (case addItem_ns defn name of
        Inl e \<Rightarrow> Inl e
      | Inr ns \<Rightarrow>
          (case (if exists lib ns then getItem lib ns else Some []) of
             None \<Rightarrow> Inl TypeError
           | Some xsdCollection \<Rightarrow>
               Inr (lib\<lparr>items := (items lib)(propertyKey ns \<mapsto> xsdCollection @ [defn])\<rparr>)))"

text \<open>
  Modelled from the spec: \<open>Library.init\<close> (in the absent \<open>lib/Library\<close>) builds an
  empty store and registers each document of the array it is given through
  \<open>addItem\<close>, with no namespace argument, in order. An exception of \<open>addItem\<close> ends it.
\<close>

fun Library_init_each :: "library \<Rightarrow> document list \<Rightarrow> error + library" where
  "Library_init_each lib [] = Inr lib"
| "Library_init_each lib (d # ds) =
     (case addItem lib d None of Inl e \<Rightarrow> Inl e | Inr lib' \<Rightarrow> Library_init_each lib' ds)"

definition Library_init :: "document list \<Rightarrow> error + library" where
  "Library_init initDefs = Library_init_each \<lparr>items = Map.empty\<rparr> initDefs"

text \<open>
  \<open>init\<close>: the parsed built-in schema goes first, then the given documents
  (\<open>defs || []\<close>). The text of \<open>basetypes.xsd\<close> is a resource outside the sources and
  is a parameter.
\<close>

definition init :: "xsd \<Rightarrow> string \<Rightarrow> document list option \<Rightarrow> error + library" where
  "init ops basetypesXsd defs =
     (let defs' = (case defs of None \<Rightarrow> [] | Some ds \<Rightarrow> ds);
          initDefs = [xsd_parseToDom ops basetypesXsd] @ defs'
      in Library_init initDefs)"

section \<open>Lookup by name\<close>

fun findElement_loop :: "xsd \<Rightarrow> document list \<Rightarrow> string \<Rightarrow> node option" where
  "findElement_loop ops [] name = None"
| "findElement_loop ops (x # xsds) name =
     (case xsd_findElement ops (Doc x) name of
        Some element \<Rightarrow> Some element
      | None \<Rightarrow> findElement_loop ops xsds name)"

definition findElement :: "xsd \<Rightarrow> library \<Rightarrow> string option \<Rightarrow> string \<Rightarrow> node option" where
  "findElement ops lib namespace name =
     (let xsds = (case getItem lib namespace of None \<Rightarrow> [] | Some xs \<Rightarrow> xs)
      in findElement_loop ops xsds name)"

fun findTypeByName_loop :: "xsd \<Rightarrow> document list \<Rightarrow> string \<Rightarrow> node option" where
  "findTypeByName_loop ops [] name = None"
| "findTypeByName_loop ops (x # xsds) name =
     (case xsd_findTypeByName ops x name of
        Some xsdNode \<Rightarrow> Some xsdNode
      | None \<Rightarrow> findTypeByName_loop ops xsds name)"

definition findTypeByName :: "xsd \<Rightarrow> library \<Rightarrow> string option \<Rightarrow> string \<Rightarrow> node option" where
  "findTypeByName ops lib namespace name =
     (let xsds = (case getItem lib namespace of None \<Rightarrow> [] | Some xs \<Rightarrow> xs)
      in findTypeByName_loop ops xsds name)"

definition findTypeDefinitionFromNodeAttr ::
  "xsd \<Rightarrow> library \<Rightarrow> node \<Rightarrow> string \<Rightarrow> string option \<Rightarrow> node option" where
  "findTypeDefinitionFromNodeAttr ops lib n typeAttr typeAttrNS =
     (case xsd_getTypeFromNodeAttr ops n typeAttr typeAttrNS of
        Some type \<Rightarrow> findTypeByName ops lib (qn_namespaceURI type) (qn_name type)
      | None \<Rightarrow> None)"

section \<open>Instance nodes to definitions\<close>

text \<open>
  \<open>findXsdSubNode\<close> reads \<open>xsdNode.localName\<close> first, which raises on null and on
  undefined. Of an element definition it takes the named type, else the first child;
  without children \<open>children[0]\<close> is undefined and the collaborator's search, which
  must read its argument, raises.
\<close>

definition findXsdSubNode ::
  "xsd \<Rightarrow> library \<Rightarrow> node option \<Rightarrow> string \<Rightarrow> error + node option" where
  "findXsdSubNode ops lib xsdNode name =
     (case xsdNode of
        None \<Rightarrow> Inl TypeError
      | Some x \<Rightarrow>
          if localName x = ''element'' then
            (case findTypeDefinitionFromNodeAttr ops lib x ''type'' None of
               Some t \<Rightarrow> Inr (xsd_findElement ops (Elem t) name)
             | None \<Rightarrow>
                 (case children x of
                    [] \<Rightarrow> Inl TypeError
                  | c # _ \<Rightarrow> Inr (xsd_findElement ops (Elem c) name)))
          else Inr (xsd_findElement ops (Elem x) name))"

text \<open>The callback handed to \<open>getFirstFilteredAncestor\<close>: it records the ancestor and
  answers whether the ancestor carries an \<open>xsi:type\<close>.\<close>

definition collectParent :: "xsd \<Rightarrow> node \<Rightarrow> node list \<Rightarrow> bool \<times> node list" where
  "collectParent ops current parents =
     (xsd_getTypeFromNodeAttr ops current ''type'' (Some (xsd_xsi ops)) \<noteq> None,
      parents @ [current])"

text \<open>The body of \<open>each\<close> over the reversed parents; \<open>xsdNode\<close> starts undefined.\<close>

fun findElementForXmlNode_each ::
  "xsd \<Rightarrow> library \<Rightarrow> node list \<Rightarrow> node option \<Rightarrow> error + node option" where
  "findElementForXmlNode_each ops lib [] xsdNode = Inr xsdNode"
| "findElementForXmlNode_each ops lib (currParent # ps) xsdNode =
     (case (case xsdNode of
              Some x \<Rightarrow> findXsdSubNode ops lib (Some x) (localName currParent)
            | None \<Rightarrow>
                Inr (findTypeDefinitionFromNodeAttr ops lib currParent ''type''
                       (Some (xsd_xsi ops)))) of
        Inl e \<Rightarrow> Inl e
      | Inr xsdNode' \<Rightarrow> findElementForXmlNode_each ops lib ps xsdNode')"

definition findElementForXmlNode :: "xsd \<Rightarrow> library \<Rightarrow> node \<Rightarrow> error + node option" where
  "findElementForXmlNode ops lib n =
     (let parents = snd (getFirstFilteredAncestor ops n (collectParent ops) [])
      in case findElementForXmlNode_each ops lib (rev parents) None of
           Inl e \<Rightarrow> Inl e
         | Inr xsdNode \<Rightarrow> findXsdSubNode ops lib xsdNode (localName n))"

text \<open>\<open>findElementType\<close> reads \<open>tdef.namespaceURI\<close> only when no embedded type is
  found; \<open>tdef\<close> is null when the element has no \<open>type\<close> attribute.\<close>

definition findElementType :: "xsd \<Rightarrow> library \<Rightarrow> node \<Rightarrow> error + node option" where
  "findElementType ops lib elem =
     (let tdef = xsd_getTypeFromNodeAttr ops elem ''type'' None
      in case xsd_getEmbeddedType ops elem of
           Some t \<Rightarrow> Inr (Some t)
         | None \<Rightarrow>
             (case tdef of
                None \<Rightarrow> Inl TypeError
              | Some q \<Rightarrow> Inr (findTypeByName ops lib (qn_namespaceURI q) (qn_name q))))"

section \<open>Type chains\<close>

text \<open>\<open>findRestrictedType\<close> also writes the restriction element to the console, which
  has no part in what it returns.\<close>

definition findRestrictedType :: "xsd \<Rightarrow> library \<Rightarrow> node \<Rightarrow> node option" where
  "findRestrictedType ops lib n =
     (case find (\<lambda>child. namespaceURI child = Some (xsd_xs ops) \<and>
                         localName child = ''restriction'') (children n) of
        Some element \<Rightarrow> findTypeDefinitionFromNodeAttr ops lib element ''base'' None
      | None \<Rightarrow> None)"


text \<open>
  The loops over a chain have no bound in the source, so they are partial functions:
  the value \<open>None\<close> is a walk that never returns. \<open>findBaseTypeFor\<close> is the
  \<open>do ... while (base)\<close> loop with its variable \<open>base\<close>; the result is the \<open>name\<close>
  attribute of the last node, a string or null.
\<close>

partial_function (option) findBaseTypeFor_loop ::
  "xsd \<Rightarrow> library \<Rightarrow> node \<Rightarrow> node option \<Rightarrow> string option option" where
  "findBaseTypeFor_loop ops lib n base =
     (let cur = (case base of Some b \<Rightarrow> b | None \<Rightarrow> n);
          base' = findRestrictedType ops lib cur
      in case base' of
           Some b \<Rightarrow> findBaseTypeFor_loop ops lib n (Some b)
         | None \<Rightarrow> Some (getAttribute cur ''name''))"

definition findBaseTypeFor :: "xsd \<Rightarrow> library \<Rightarrow> node \<Rightarrow> string option option" where
  "findBaseTypeFor ops lib n = findBaseTypeFor_loop ops lib n None"





section \<open>Facet collection\<close>

text \<open>
  The array \<open>facets\<close> that \<open>collectFacets\<close> returns holds two kinds of entries: a facet
  node pushed by \<open>processFacet\<close>, and the array \<open>enums\<close> of one level pushed after that
  level's facets were processed.
\<close>

datatype facet_entry = Facet node | Enums "node list"

record facet_state =
  facets :: "facet_entry list"
  enums :: "node list"
  foundFacetTypes :: "string list"

definition processFacet :: "node \<Rightarrow> facet_state \<Rightarrow> facet_state" where
  "processFacet facet st =
     (let fname = localName facet;
          isEnum = (fname = ''enumeration'');
          isAssertion = (fname = ''assertion'');
          isAlreadyFound = (fname \<in> set (foundFacetTypes st));
          isFixed = (\<not> isEnum \<and> (isAssertion \<or> getAttribute facet ''fixed'' = Some ''true''))
      in if \<not> isAlreadyFound \<or> isFixed then
           (let st' = (if isEnum then st\<lparr>enums := enums st @ [facet]\<rparr>
                       else st\<lparr>facets := facets st @ [Facet facet]\<rparr>)
            in if \<not> isEnum then st'\<lparr>foundFacetTypes := foundFacetTypes st' @ [fname]\<rparr>
               else st')
         else st)"

text \<open>One turn of the \<open>while\<close> loop, up to the step to the restricted type.\<close>

definition collectFacets_level :: "node list \<Rightarrow> facet_state \<Rightarrow> facet_state" where
  "collectFacets_level currFacets st =
     (let st1 = fold processFacet currFacets (st\<lparr>enums := []\<rparr>)
      in if enums st1 \<noteq> [] then
           st1\<lparr>facets := facets st1 @ [Enums (enums st1)],
               foundFacetTypes := foundFacetTypes st1 @ [''enumeration'']\<rparr>
         else st1)"

partial_function (option) collectFacets_loop ::
  "xsd \<Rightarrow> library \<Rightarrow> node option \<Rightarrow> facet_state \<Rightarrow> facet_entry list option" where
  "collectFacets_loop ops lib currType st =
     (case currType of
        None \<Rightarrow> Some (facets st)
      | Some t \<Rightarrow>
          collectFacets_loop ops lib (findRestrictedType ops lib t)
            (collectFacets_level (xsd_findRestrictingFacets ops t) st))"

definition collectFacets :: "xsd \<Rightarrow> library \<Rightarrow> node \<Rightarrow> facet_entry list option" where
  "collectFacets ops lib simpleType =
     collectFacets_loop ops lib (Some simpleType)
       \<lparr>facets = [], enums = [], foundFacetTypes = []\<rparr>"

section \<open>Vocabulary of the properties\<close>

text \<open>A sequence of \<open>addItem\<close> calls, each with its document and optional name; an
  exception ends the sequence.\<close>

fun addItems :: "library \<Rightarrow> (document \<times> string option) list \<Rightarrow> error + library" where
  "addItems lib [] = Inr lib"
| "addItems lib ((d, name) # calls) =
     (case addItem lib d name of Inl e \<Rightarrow> Inl e | Inr lib' \<Rightarrow> addItems lib' calls)"

text \<open>The array registered under a namespace, empty when there is none.\<close>

definition bucket :: "library \<Rightarrow> string option \<Rightarrow> document list" where
  "bucket lib ns = (case getItem lib ns of None \<Rightarrow> [] | Some xs \<Rightarrow> xs)"

text \<open>
  \<open>restriction_chain ops lib t bs\<close>: the walk by \<open>findRestrictedType\<close> from \<open>t\<close> visits
  exactly the types \<open>bs\<close> after \<open>t\<close> and then finds no further base. The chain of
  extensions is stated alike.
\<close>

fun restriction_chain :: "xsd \<Rightarrow> library \<Rightarrow> node \<Rightarrow> node list \<Rightarrow> bool" where
  "restriction_chain ops lib t [] = (findRestrictedType ops lib t = None)"
| "restriction_chain ops lib t (b # bs) =
     (findRestrictedType ops lib t = Some b \<and> restriction_chain ops lib b bs)"


text \<open>
  Descending from a definition through a list of local names by \<open>findXsdSubNode\<close>,
  while every step finds a definition.
\<close>

fun descend :: "xsd \<Rightarrow> library \<Rightarrow> node \<Rightarrow> string list \<Rightarrow> node option" where
  "descend ops lib d [] = Some d"
| "descend ops lib d (name # names) =
     (case findXsdSubNode ops lib (Some d) name of
        Inr (Some x) \<Rightarrow> descend ops lib x names
      | _ \<Rightarrow> None)"

text \<open>The facet lists of the levels of a chain, most-derived level first.\<close>

definition facet_levels :: "xsd \<Rightarrow> node list \<Rightarrow> node list list" where
  "facet_levels ops ts = map (xsd_findRestrictingFacets ops) ts"

definition isEnum :: "node \<Rightarrow> bool" where
  "isEnum facet = (localName facet = ''enumeration'')"

definition isFixed :: "node \<Rightarrow> bool" where
  "isFixed facet =
     (\<not> isEnum facet \<and>
      (localName facet = ''assertion'' \<or> getAttribute facet ''fixed'' = Some ''true''))"

text \<open>The two kinds of entries of a result of \<open>collectFacets\<close>, each in order.\<close>

fun enum_groups :: "facet_entry list \<Rightarrow> node list list" where
  "enum_groups [] = []"
| "enum_groups (Facet f # es) = enum_groups es"
| "enum_groups (Enums g # es) = g # enum_groups es"

fun facet_nodes :: "facet_entry list \<Rightarrow> node list" where
  "facet_nodes [] = []"
| "facet_nodes (Facet f # es) = f # facet_nodes es"
| "facet_nodes (Enums g # es) = facet_nodes es"

text \<open>
  The facets of one kind that a walk records from the facets it meets, in order: the
  first facet of the kind, then every later facet of the kind that is fixed.
\<close>

definition recorded_of_kind :: "string \<Rightarrow> node list \<Rightarrow> node list" where
  "recorded_of_kind k fs =
     (case dropWhile (\<lambda>f. localName f \<noteq> k) fs of
        [] \<Rightarrow> []
      | f # rest \<Rightarrow> f # filter (\<lambda>g. localName g = k \<and> isFixed g) rest)"

text \<open>The same after the kind was already met (\<open>seen\<close>): only the fixed ones.\<close>

definition recorded_after :: "bool \<Rightarrow> string \<Rightarrow> node list \<Rightarrow> node list" where
  "recorded_after seen k fs =
     (if seen then filter (\<lambda>g. localName g = k \<and> isFixed g) fs else recorded_of_kind k fs)"

text \<open>The enumeration group of the first level that has enumeration facets, if any.\<close>

definition first_enum_level :: "node list list \<Rightarrow> node list list" where
  "first_enum_level levels =
     (case find (\<lambda>l. filter isEnum l \<noteq> []) levels of
        None \<Rightarrow> []
      | Some l \<Rightarrow> [filter isEnum l])"

text \<open>Views of the loop state of \<open>collectFacets\<close>.\<close>

definition enum_seen :: "facet_state \<Rightarrow> bool" where
  "enum_seen st = (''enumeration'' \<in> set (foundFacetTypes st))"

definition kind_nodes :: "string \<Rightarrow> facet_state \<Rightarrow> node list" where
  "kind_nodes k st = filter (\<lambda>f. localName f = k) (facet_nodes (facets st))"

definition kind_seen :: "string \<Rightarrow> facet_state \<Rightarrow> bool" where
  "kind_seen k st = (k \<in> set (foundFacetTypes st))"

section \<open>A sample collaborator and sample schemas\<close>

text \<open>
  A concrete \<open>xsd\<close> record and a few documents, on which the definitions are evaluated.
  The sample collaborator searches by attribute \<open>name\<close>, resolves the prefix \<open>xs:\<close> to
  the schema namespace and every unprefixed name to \<open>urn:t\<close>, and parses any text to
  the sample base-type document.
\<close>

definition XS :: string where "XS = ''http://www.w3.org/2001/XMLSchema''"
definition XSI :: string where "XSI = ''http://www.w3.org/2001/XMLSchema-instance''"

definition xs_node :: "string \<Rightarrow> (string \<times> string) list \<Rightarrow> node list \<Rightarrow> node" where
  "xs_node l as kids = Node (Some XS) l (map (\<lambda>(k, v). ((None, k), v)) as) kids"

fun descendants :: "nat \<Rightarrow> node \<Rightarrow> node list" where
  "descendants 0 n = []"
| "descendants (Suc k) n = concat (map (\<lambda>c. c # descendants k c) (children n))"

definition sample_resolve :: "string \<Rightarrow> qname" where
  "sample_resolve v =
     (case v of
        CHR ''x'' # CHR ''s'' # CHR '':'' # rest \<Rightarrow> \<lparr>qn_namespaceURI = Some XS, qn_name = rest\<rparr>
      | _ \<Rightarrow> \<lparr>qn_namespaceURI = Some ''urn:t'', qn_name = v\<rparr>)"

definition isTypeDef :: "node \<Rightarrow> bool" where
  "isTypeDef c = (localName c = ''simpleType'' \<or> localName c = ''complexType'')"

definition named :: "string \<Rightarrow> string \<Rightarrow> node \<Rightarrow> bool" where
  "named l name c = (localName c = l \<and> getAttribute c ''name'' = Some name)"

definition basetypes_doc :: document where
  "basetypes_doc = Document (Some (xs_node ''schema'' [(''targetNamespace'', XS)]
     [xs_node ''simpleType'' [(''name'', ''string'')] [],
      xs_node ''simpleType'' [(''name'', ''decimal'')] []]))"

definition td8 :: node where "td8 = xs_node ''totalDigits'' [(''value'', ''8''), (''fixed'', ''true'')] []"
definition ml5 :: node where "ml5 = xs_node ''maxLength'' [(''value'', ''5'')] []"
definition fd1 :: node where "fd1 = xs_node ''fractionDigits'' [(''value'', ''1'')] []"
definition en_a :: node where "en_a = xs_node ''enumeration'' [(''value'', ''a'')] []"
definition en_b :: node where "en_b = xs_node ''enumeration'' [(''value'', ''b'')] []"
definition td10 :: node where "td10 = xs_node ''totalDigits'' [(''value'', ''10'')] []"
definition ml9 :: node where "ml9 = xs_node ''maxLength'' [(''value'', ''9'')] []"
definition fd2 :: node where "fd2 = xs_node ''fractionDigits'' [(''value'', ''2''), (''fixed'', ''true'')] []"
definition en_c :: node where "en_c = xs_node ''enumeration'' [(''value'', ''c'')] []"
definition as1 :: node where "as1 = xs_node ''assertion'' [(''test'', ''t'')] []"

definition type_Amount :: node where
  "type_Amount = xs_node ''simpleType'' [(''name'', ''Amount'')]
     [xs_node ''restriction'' [(''base'', ''Money'')] [td8, ml5, fd1, en_a, en_b]]"

definition type_Money :: node where
  "type_Money = xs_node ''simpleType'' [(''name'', ''Money'')]
     [xs_node ''restriction'' [(''base'', ''xs:decimal'')] [td10, ml9, fd2, en_c, as1]]"

definition type_decimal :: node where
  "type_decimal = xs_node ''simpleType'' [(''name'', ''decimal'')] []"

definition elem_q :: node where "elem_q = xs_node ''element'' [(''name'', ''q'')] []"
definition elem_c1 :: node where
  "elem_c1 = xs_node ''element'' [(''name'', ''c1'')] [xs_node ''complexType'' [] [elem_q]]"
definition elem_p1 :: node where "elem_p1 = xs_node ''element'' [(''name'', ''p1'')] []"
definition elem_p2 :: node where "elem_p2 = xs_node ''element'' [(''name'', ''p2'')] []"
definition assert_c :: node where "assert_c = xs_node ''assert'' [(''test'', ''c'')] []"
definition assert_p :: node where "assert_p = xs_node ''assert'' [(''test'', ''p'')] []"

definition type_Child :: node where
  "type_Child = xs_node ''complexType'' [(''name'', ''Child'')]
     [xs_node ''complexContent'' []
        [xs_node ''extension'' [(''base'', ''Parent'')] [elem_c1, assert_c]]]"

definition type_Parent :: node where
  "type_Parent = xs_node ''complexType'' [(''name'', ''Parent'')] [elem_p1, elem_p2, assert_p]"

definition elem_order :: node where
  "elem_order = xs_node ''element'' [(''name'', ''order''), (''type'', ''Child'')] []"

definition elem_untyped :: node where
  "elem_untyped = xs_node ''element'' [(''name'', ''untyped'')] []"

definition shop_doc :: document where
  "shop_doc = Document (Some (xs_node ''schema'' [(''targetNamespace'', ''urn:t'')]
     [type_Amount, type_Money, type_Child, type_Parent, elem_order, elem_untyped]))"

definition type_A :: node where
  "type_A = xs_node ''simpleType'' [(''name'', ''A'')] [xs_node ''restriction'' [(''base'', ''B'')] []]"
definition type_B :: node where
  "type_B = xs_node ''simpleType'' [(''name'', ''B'')] [xs_node ''restriction'' [(''base'', ''A'')] []]"

definition cyclic_doc :: document where
  "cyclic_doc = Document (Some (xs_node ''schema'' [(''targetNamespace'', ''urn:t'')] [type_A, type_B]))"

definition type_Money' :: node where
  "type_Money' = xs_node ''simpleType'' [(''name'', ''Money'')] []"

definition other_doc :: document where
  "other_doc = Document (Some (xs_node ''schema'' [(''targetNamespace'', ''urn:t'')] [type_Money']))"

definition nons_doc :: document where
  "nons_doc = Document (Some (xs_node ''schema'' [] [type_Money']))"

definition inst_order :: node where "inst_order = Node None ''order'' [] []"
definition inst_c1 :: node where "inst_c1 = Node None ''c1'' [] []"
definition inst_orderx :: node where
  "inst_orderx = Node None ''order'' [((Some XSI, ''type''), ''Child'')] []"
definition inst_c1x :: node where "inst_c1x = Node None ''c1'' [((None, ''id''), ''x'')] []"
definition inst_qx :: node where "inst_qx = Node None ''q'' [((None, ''id''), ''x'')] []"

definition inst_nopex :: node where "inst_nopex = Node None ''nope'' [((None, ''id''), ''x'')] []"
definition inst_zx :: node where "inst_zx = Node None ''z'' [((None, ''id''), ''x'')] []"

definition sample_ancestors :: "node \<Rightarrow> node list" where
  "sample_ancestors n =
     (if n = inst_c1 then [inst_order]
      else if n = inst_c1x then [inst_orderx]
      else if n = inst_qx then [inst_c1x, inst_orderx]
      else if n = inst_zx then [inst_nopex, inst_orderx]
      else [])"

definition sample_candidates :: "dom \<Rightarrow> node list" where
  "sample_candidates t =
     (case t of
        Doc d \<Rightarrow> (case documentElement d of None \<Rightarrow> [] | Some root \<Rightarrow> children root)
      | Elem n \<Rightarrow> descendants 3 n)"

definition sample_xsd :: xsd where
  "sample_xsd = \<lparr>
     xsd_xs = XS,
     xsd_xsi = XSI,
     xsd_parseToDom = (\<lambda>text. basetypes_doc),
     xsd_findElement = (\<lambda>t name. find (named ''element'' name) (sample_candidates t)),
     xsd_findTypeByName = (\<lambda>d name.
        find (\<lambda>c. isTypeDef c \<and> getAttribute c ''name'' = Some name) (sample_candidates (Doc d))),
     xsd_getTypeFromNodeAttr = (\<lambda>n typeAttr typeAttrNS.
        map_option sample_resolve (getAttributeNS n typeAttrNS typeAttr)),
     xsd_getEmbeddedType = (\<lambda>n. find isTypeDef (children n)),
     xsd_findRestrictingFacets = (\<lambda>n.
        case find (\<lambda>c. localName c = ''restriction'') (children n) of
          None \<Rightarrow> [] | Some r \<Rightarrow> children r),
     xsd_getComplexTypeContent = (\<lambda>n.
        case find (\<lambda>c. localName c = ''complexContent'') (children n) of
          None \<Rightarrow> n | Some c \<Rightarrow> c),
     xsd_getComplexTypeElements = (\<lambda>n. filter (\<lambda>c. localName c = ''element'') (descendants 3 n)),
     xsd_getComplexTypeAsserts = (\<lambda>n. filter (\<lambda>c. localName c = ''assert'') (descendants 3 n)),
     dom_ancestors = sample_ancestors\<rparr>"

definition sample_lib :: library where
  "sample_lib = \<lparr>items = [XS \<mapsto> [basetypes_doc], ''urn:t'' \<mapsto> [shop_doc, cyclic_doc]]\<rparr>"


definition shop_lib :: library where
  "shop_lib = \<lparr>items = [XS \<mapsto> [basetypes_doc], ''urn:t'' \<mapsto> [shop_doc]]\<rparr>"

lemmas lookup_defs =
  getAttributeNS_def getAttribute_def propertyKey_def truthy_def exists_def getItem_def
  bucket_def findElement_def findTypeByName_def findTypeDefinitionFromNodeAttr_def

section \<open>Registration and lookup: lemmas\<close>

lemma addItem_Inr:
  "addItem_ns d name = Inr ns \<Longrightarrow>
   addItem lib d name = Inr (lib\<lparr>items := (items lib)(propertyKey ns \<mapsto> bucket lib ns @ [d])\<rparr>)"
  by (auto simp: addItem_def bucket_def exists_def getItem_def split: option.splits)

lemma addItem_Inl: "addItem_ns d name = Inl e \<Longrightarrow> addItem lib d name = Inl e"
  by (simp add: addItem_def)

lemma addItem_cases:
  "addItem lib d name = Inr lib' \<Longrightarrow>
   \<exists>ns. addItem_ns d name = Inr ns \<and>
        lib' = lib\<lparr>items := (items lib)(propertyKey ns \<mapsto> bucket lib ns @ [d])\<rparr>"
  by (cases "addItem_ns d name") (auto simp: addItem_Inl addItem_Inr)




lemma bucket_key: "propertyKey k = propertyKey ns \<Longrightarrow> bucket lib k = bucket lib ns"
  by (simp add: bucket_def getItem_def)

lemma bucket_addItem:
  assumes "addItem lib d name = Inr lib'"
  shows "\<exists>ns. addItem_ns d name = Inr ns \<and>
          (\<forall>k. bucket lib' k =
                (if propertyKey k = propertyKey ns then bucket lib k @ [d] else bucket lib k))"
proof -
  from addItem_cases[OF assms] obtain ns where ns: "addItem_ns d name = Inr ns"
    and l: "lib' = lib\<lparr>items := (items lib)(propertyKey ns \<mapsto> bucket lib ns @ [d])\<rparr>"
    by blast
  have "bucket lib' k = (if propertyKey k = propertyKey ns then bucket lib k @ [d] else bucket lib k)" for k
    by (simp add: l bucket_def getItem_def)
  with ns show ?thesis by blast
qed

lemma addItem_keeps_head:
  assumes "addItem lib d name = Inr lib'" and "bucket lib k = b # rest"
  shows "\<exists>rest'. bucket lib' k = b # rest'"
  using bucket_addItem[OF assms(1)] assms(2) by auto

lemma addItem_grows:
  assumes "addItem lib d name = Inr lib'"
  shows "set (bucket lib k) \<subseteq> set (bucket lib' k)"
  using bucket_addItem[OF assms] by auto

lemma addItems_keeps_head:
  "addItems lib calls = Inr lib' \<Longrightarrow> bucket lib k = b # rest \<Longrightarrow> \<exists>rest'. bucket lib' k = b # rest'"
proof (induction calls arbitrary: lib rest)
  case Nil
  then show ?case by simp
next
  case (Cons c calls)
  obtain d name where c: "c = (d, name)" by (cases c)
  from Cons.prems(1) c obtain lib1 where a: "addItem lib d name = Inr lib1"
    and r: "addItems lib1 calls = Inr lib'"
    by (auto split: sum.splits)
  from addItem_keeps_head[OF a Cons.prems(2)] obtain rest1 where "bucket lib1 k = b # rest1" ..
  from Cons.IH[OF r this] show ?case .
qed

lemma Library_init_each_keeps_head:
  "Library_init_each lib ds = Inr lib' \<Longrightarrow> bucket lib k = b # rest \<Longrightarrow> \<exists>rest'. bucket lib' k = b # rest'"
proof (induction ds arbitrary: lib rest)
  case Nil
  then show ?case by simp
next
  case (Cons d ds)
  from Cons.prems(1) obtain lib1 where a: "addItem lib d None = Inr lib1"
    and r: "Library_init_each lib1 ds = Inr lib'"
    by (auto split: sum.splits)
  from addItem_keeps_head[OF a Cons.prems(2)] obtain rest1 where "bucket lib1 k = b # rest1" ..
  from Cons.IH[OF r this] show ?case .
qed

lemma Library_init_each_grows:
  "Library_init_each lib ds = Inr lib' \<Longrightarrow> set (bucket lib k) \<subseteq> set (bucket lib' k)"
proof (induction ds arbitrary: lib)
  case Nil
  then show ?case by simp
next
  case (Cons d ds)
  from Cons.prems(1) obtain lib1 where a: "addItem lib d None = Inr lib1"
    and r: "Library_init_each lib1 ds = Inr lib'"
    by (auto split: sum.splits)
  from addItem_grows[OF a] Cons.IH[OF r] show ?case by blast
qed

lemma bucket_empty: "bucket \<lparr>items = Map.empty\<rparr> k = []"
  by (simp add: bucket_def getItem_def)

lemma init_first:
  assumes "init ops txt defs = Inr lib0"
  shows "\<exists>ns rest. addItem_ns (xsd_parseToDom ops txt) None = Inr ns \<and>
           bucket lib0 ns = xsd_parseToDom ops txt # rest"
proof -
  let ?base = "xsd_parseToDom ops txt"
  let ?ds = "case defs of None \<Rightarrow> [] | Some ds \<Rightarrow> ds"
  from assms have "Library_init_each \<lparr>items = Map.empty\<rparr> (?base # ?ds) = Inr lib0"
    by (simp add: init_def Library_init_def)
  then obtain lib1 where a: "addItem \<lparr>items = Map.empty\<rparr> ?base None = Inr lib1"
    and r: "Library_init_each lib1 ?ds = Inr lib0"
    by (auto split: sum.splits)
  from bucket_addItem[OF a] obtain ns where ns: "addItem_ns ?base None = Inr ns"
    and b: "bucket lib1 ns = [?base]"
    by (auto simp: bucket_empty)
  from Library_init_each_keeps_head[OF r b] ns show ?thesis by blast
qed

lemma Library_init_each_rooted:
  "\<forall>d \<in> set ds. documentElement d \<noteq> None \<Longrightarrow>
   \<exists>lib'. Library_init_each lib ds = Inr lib' \<and>
     (\<forall>d \<in> set ds. \<forall>ns. addItem_ns d None = Inr ns \<longrightarrow> d \<in> set (bucket lib' ns))"
proof (induction ds arbitrary: lib)
  case Nil
  then show ?case by simp
next
  case (Cons d ds)
  from Cons.prems obtain root where root: "documentElement d = Some root" by auto
  define ns where "ns = getAttributeNS root None ''targetNamespace''"
  have n: "addItem_ns d None = Inr ns"
    by (simp add: addItem_ns_def truthy_def root ns_def)
  define lib1 where "lib1 = lib\<lparr>items := (items lib)(propertyKey ns \<mapsto> bucket lib ns @ [d])\<rparr>"
  have a: "addItem lib d None = Inr lib1"
    by (simp add: addItem_Inr[OF n] lib1_def)
  have d1: "d \<in> set (bucket lib1 ns)"
    using bucket_addItem[OF a] n by auto
  from Cons.prems have "\<forall>d \<in> set ds. documentElement d \<noteq> None" by simp
  from Cons.IH[OF this, of lib1] obtain lib' where r: "Library_init_each lib1 ds = Inr lib'"
    and m: "\<forall>d \<in> set ds. \<forall>ns. addItem_ns d None = Inr ns \<longrightarrow> d \<in> set (bucket lib' ns)"
    by blast
  from Library_init_each_grows[OF r] d1 have "d \<in> set (bucket lib' ns)" by blast
  with n m have "\<forall>x \<in> set (d # ds). \<forall>ns. addItem_ns x None = Inr ns \<longrightarrow> x \<in> set (bucket lib' ns)"
    by auto
  moreover have "Library_init_each lib (d # ds) = Inr lib'" using a r by simp
  ultimately show ?case by blast
qed

section \<open>Registration and lookup: the claims\<close>

text \<open>
  C10. A namespace whose key does not exist in the store has no bucket: \<open>getItem\<close> is
  null there, the loops of \<open>findElement\<close> and \<open>findTypeByName\<close> run over the empty array,
  and both return null for every name. Neither can raise.
\<close>

theorem lookup_unregistered_namespace:
  "\<not> exists lib ns \<Longrightarrow>
   findElement ops lib ns name = None \<and> findTypeByName ops lib ns name = None"
  by (auto simp: exists_def findElement_def findTypeByName_def getItem_def dom_def)

theorem lookup_unregistered_namespace_witness:
  "\<not> exists sample_lib (Some ''urn:none'') \<and>
   findElement sample_xsd sample_lib (Some ''urn:none'') ''order'' = None \<and>
   findTypeByName sample_xsd sample_lib (Some ''urn:none'') ''order'' = None"
proof -
  have h: "\<not> exists sample_lib (Some ''urn:none'')"
    by (simp add: exists_def propertyKey_def sample_lib_def XS_def)
  from lookup_unregistered_namespace[OF h, of sample_xsd "''order''"] h show ?thesis by simp
qed



text \<open>
  C9. Construction registers the parsed built-in schema before every other document,
  and \<open>addItem\<close> only appends. So in the library that \<open>init\<close> returns, and after any
  sequence of \<open>addItem\<close> calls on it, the key of the built-in schema's own namespace
  exists and the built-in schema is the first document of its array.
\<close>

theorem base_schema_stays_first:
  assumes "init ops txt defs = Inr lib0" and "addItems lib0 calls = Inr lib"
  shows "\<exists>ns rest. addItem_ns (xsd_parseToDom ops txt) None = Inr ns \<and>
           exists lib ns \<and> getItem lib ns = Some (xsd_parseToDom ops txt # rest)"
proof -
  from init_first[OF assms(1)] obtain ns rest0 where ns: "addItem_ns (xsd_parseToDom ops txt) None = Inr ns"
    and b: "bucket lib0 ns = xsd_parseToDom ops txt # rest0"
    by blast
  from addItems_keeps_head[OF assms(2) b] obtain rest where "bucket lib ns = xsd_parseToDom ops txt # rest" ..
  then have "getItem lib ns = Some (xsd_parseToDom ops txt # rest)"
    by (auto simp: bucket_def split: option.splits)
  moreover from this have "exists lib ns" by (auto simp: exists_def getItem_def)
  ultimately show ?thesis using ns by blast
qed

theorem base_schema_stays_first_witness:
  "init sample_xsd '''' (Some [shop_doc]) = Inr shop_lib \<and>
   addItems shop_lib [(cyclic_doc, None)] = Inr sample_lib \<and>
   (\<exists>ns rest. addItem_ns (xsd_parseToDom sample_xsd '''') None = Inr ns \<and>
      exists sample_lib ns \<and>
      getItem sample_lib ns = Some (xsd_parseToDom sample_xsd '''' # rest))"
proof -
  have i: "init sample_xsd '''' (Some [shop_doc]) = Inr shop_lib"
    by (simp add: init_def Library_init_def addItem_def addItem_ns_def lookup_defs
        sample_xsd_def basetypes_doc_def shop_doc_def shop_lib_def xs_node_def XS_def)
  have a: "addItems shop_lib [(cyclic_doc, None)] = Inr sample_lib"
    by (simp add: addItem_def addItem_ns_def lookup_defs cyclic_doc_def shop_lib_def
        sample_lib_def xs_node_def XS_def)
  from base_schema_stays_first[OF i a] i a show ?thesis by blast
qed

text \<open>
  C4, as the code has it. Registration never looks for a missing namespace: when every
  document has a root element, construction succeeds, and each given document whose
  root has no \<open>targetNamespace\<close> attribute sits in the array of the key of null.
\<close>

theorem init_without_namespace_check:
  assumes "\<forall>d \<in> set (xsd_parseToDom ops txt # ds). documentElement d \<noteq> None"
  shows "\<exists>lib. init ops txt (Some ds) = Inr lib \<and>
          (\<forall>d \<in> set ds. \<forall>root. documentElement d = Some root \<longrightarrow>
              getAttributeNS root None ''targetNamespace'' = None \<longrightarrow>
              d \<in> set (bucket lib None))"
proof -
  from Library_init_each_rooted[OF assms, of "\<lparr>items = Map.empty\<rparr>"]
  obtain lib where i: "Library_init_each \<lparr>items = Map.empty\<rparr> (xsd_parseToDom ops txt # ds) = Inr lib"
    and m: "\<forall>d \<in> set (xsd_parseToDom ops txt # ds). \<forall>ns. addItem_ns d None = Inr ns \<longrightarrow> d \<in> set (bucket lib ns)"
    by blast
  have "d \<in> set (bucket lib None)"
    if "d \<in> set ds" "documentElement d = Some root" "getAttributeNS root None ''targetNamespace'' = None"
    for d root
  proof -
    from that have "addItem_ns d None = Inr None" by (simp add: addItem_ns_def truthy_def)
    with m that(1) show ?thesis by simp
  qed
  moreover from i have "init ops txt (Some ds) = Inr lib"
    by (simp add: init_def Library_init_def)
  ultimately show ?thesis by blast
qed

theorem init_without_namespace_check_witness:
  "documentElement (xsd_parseToDom sample_xsd '''') \<noteq> None \<and>
   documentElement nons_doc \<noteq> None \<and>
   \<not> isl (init sample_xsd '''' (Some [nons_doc])) \<and>
   nons_doc \<in> set (bucket (projr (init sample_xsd '''' (Some [nons_doc]))) None)"
proof -
  have h1: "documentElement (xsd_parseToDom sample_xsd '''') \<noteq> None"
    by (simp add: sample_xsd_def basetypes_doc_def)
  have h2: "documentElement nons_doc = Some (xs_node ''schema'' [] [type_Money'])"
    by (simp add: nons_doc_def)
  have h3: "getAttributeNS (xs_node ''schema'' [] [type_Money']) None ''targetNamespace'' = None"
    by (simp add: getAttributeNS_def xs_node_def)
  have h: "\<forall>d \<in> set (xsd_parseToDom sample_xsd '''' # [nons_doc]). documentElement d \<noteq> None"
    using h1 h2 by simp
  from init_without_namespace_check[OF h] h2 h3
  obtain lib where "init sample_xsd '''' (Some [nons_doc]) = Inr lib"
    and "nons_doc \<in> set (bucket lib None)"
    by auto
  with h1 h2 show ?thesis by simp
qed

text \<open>
  C4 as stated fails: a document with no target namespace, given to the constructor
  with no namespace supplied, is registered under the key \<open>null\<close> and no error is raised.
\<close>

theorem init_without_namespace_counterexample:
  "init sample_xsd '''' (Some [nons_doc]) =
     Inr \<lparr>items = [XS \<mapsto> [basetypes_doc], ''null'' \<mapsto> [nons_doc]]\<rparr>"
  by (simp add: init_def Library_init_def addItem_def addItem_ns_def lookup_defs
      sample_xsd_def basetypes_doc_def nons_doc_def xs_node_def XS_def)

section \<open>Walks over a restriction chain: lemmas\<close>

lemma findBaseTypeFor_loop_chain:
  "restriction_chain ops lib b bs \<Longrightarrow>
   findBaseTypeFor_loop ops lib n (Some b) = Some (getAttribute (last (b # bs)) ''name'')"
proof (induction bs arbitrary: b)
  case Nil
  then show ?case by (subst findBaseTypeFor_loop.simps) simp
next
  case (Cons c cs)
  then show ?case by (subst findBaseTypeFor_loop.simps) simp
qed

lemma findBaseTypeFor_chain:
  assumes "restriction_chain ops lib t bs"
  shows "findBaseTypeFor ops lib t = Some (getAttribute (last (t # bs)) ''name'')"
proof (cases bs)
  case Nil
  with assms show ?thesis
    unfolding findBaseTypeFor_def by (subst findBaseTypeFor_loop.simps) simp
next
  case (Cons c cs)
  with assms have r: "findRestrictedType ops lib t = Some c" and "restriction_chain ops lib c cs"
    by simp_all
  then have "findBaseTypeFor_loop ops lib t (Some c) = Some (getAttribute (last (c # cs)) ''name'')"
    by (simp only: findBaseTypeFor_loop_chain)
  with r Cons show ?thesis
    unfolding findBaseTypeFor_def by (subst findBaseTypeFor_loop.simps) simp
qed

lemma findBaseTypeFor_loop_returns:
  assumes "findBaseTypeFor_loop ops lib n base = Some r"
  shows "\<exists>bs. restriction_chain ops lib (case base of Some b \<Rightarrow> b | None \<Rightarrow> n) bs"
proof (rule findBaseTypeFor_loop.raw_induct
    [where P = "\<lambda>ops lib n base r.
       \<exists>bs. restriction_chain ops lib (case base of Some b \<Rightarrow> b | None \<Rightarrow> n) bs",
     OF _ assms], goal_cases)
  case (1 f ops lib n base r)
  let ?cur = "case base of Some b \<Rightarrow> b | None \<Rightarrow> n"
  show ?case
  proof (cases "findRestrictedType ops lib ?cur")
    case None
    then have "restriction_chain ops lib ?cur []" by simp
    then show ?thesis by blast
  next
    case (Some b)
    with 1(2) have "f ops lib n (Some b) = Some r" by (simp add: Let_def)
    from 1(1)[OF this] obtain bs where "restriction_chain ops lib b bs" by auto
    with Some have "restriction_chain ops lib ?cur (b # bs)" by simp
    then show ?thesis by blast
  qed
qed

lemma collectFacets_loop_chain:
  "restriction_chain ops lib t bs \<Longrightarrow>
   collectFacets_loop ops lib (Some t) st =
     Some (facets (fold collectFacets_level (facet_levels ops (t # bs)) st))"
proof (induction bs arbitrary: t st)
  case Nil
  then show ?case
    by (subst collectFacets_loop.simps, simp, subst collectFacets_loop.simps)
       (simp add: facet_levels_def)
next
  case (Cons c cs)
  from Cons.prems have r: "findRestrictedType ops lib t = Some c" and c: "restriction_chain ops lib c cs"
    by simp_all
  show ?case
    by (subst collectFacets_loop.simps) (simp add: r Cons.IH[OF c] facet_levels_def)
qed

lemma collectFacets_loop_returns:
  assumes "collectFacets_loop ops lib cur st = Some r"
  shows "\<forall>t. cur = Some t \<longrightarrow> (\<exists>bs. restriction_chain ops lib t bs)"
proof (rule collectFacets_loop.raw_induct
    [where P = "\<lambda>ops lib cur st r.
       \<forall>t. cur = Some t \<longrightarrow> (\<exists>bs. restriction_chain ops lib t bs)",
     OF _ assms], goal_cases)
  case (1 f ops lib cur st r)
  show ?case
  proof (intro allI impI)
    fix t assume c: "cur = Some t"
    show "\<exists>bs. restriction_chain ops lib t bs"
    proof (cases "findRestrictedType ops lib t")
      case None
      then have "restriction_chain ops lib t []" by simp
      then show ?thesis by blast
    next
      case (Some b)
      with 1(2) c have "f ops lib (Some b) (collectFacets_level (xsd_findRestrictingFacets ops t) st) = Some r"
        by simp
      from 1(1)[OF this] obtain bs where "restriction_chain ops lib b bs" by auto
      with Some have "restriction_chain ops lib t (b # bs)" by simp
      then show ?thesis by blast
    qed
  qed
qed

lemma processFacet_enum:
  "isEnum f \<Longrightarrow>
   processFacet f st =
     (if ''enumeration'' \<in> set (foundFacetTypes st) then st else st\<lparr>enums := enums st @ [f]\<rparr>)"
  by (simp add: processFacet_def isEnum_def Let_def)

lemma processFacet_other:
  "\<not> isEnum f \<Longrightarrow>
   processFacet f st =
     (if localName f \<notin> set (foundFacetTypes st) \<or> isFixed f
      then st\<lparr>facets := facets st @ [Facet f],
               foundFacetTypes := foundFacetTypes st @ [localName f]\<rparr>
      else st)"
  by (simp add: processFacet_def isEnum_def isFixed_def Let_def)

lemma enum_groups_append: "enum_groups (xs @ ys) = enum_groups xs @ enum_groups ys"
  by (induction xs rule: enum_groups.induct) simp_all

lemma facet_nodes_append: "facet_nodes (xs @ ys) = facet_nodes xs @ facet_nodes ys"
  by (induction xs rule: facet_nodes.induct) simp_all

lemma processFacet_enum_view:
  "enum_groups (facets (processFacet f st)) = enum_groups (facets st) \<and>
   enum_seen (processFacet f st) = enum_seen st \<and>
   enums (processFacet f st) =
     enums st @ (if \<not> enum_seen st \<and> isEnum f then [f] else [])"
  by (cases "isEnum f")
     (auto simp: processFacet_enum processFacet_other enum_seen_def enum_groups_append isEnum_def)

lemma fold_processFacet_enum_view:
  "enum_groups (facets (fold processFacet fs st)) = enum_groups (facets st) \<and>
   enum_seen (fold processFacet fs st) = enum_seen st \<and>
   enums (fold processFacet fs st) =
     enums st @ (if enum_seen st then [] else filter isEnum fs)"
proof (induction fs arbitrary: st)
  case Nil
  then show ?case by simp
next
  case (Cons f fs)
  show ?case
    using Cons.IH[of "processFacet f st"] processFacet_enum_view[of f st]
    by (simp split: if_splits)
qed

lemma collectFacets_level_enum_view:
  "enum_groups (facets (collectFacets_level fs st)) =
     enum_groups (facets st) @
       (if \<not> enum_seen st \<and> filter isEnum fs \<noteq> [] then [filter isEnum fs] else []) \<and>
   enum_seen (collectFacets_level fs st) = (enum_seen st \<or> filter isEnum fs \<noteq> [])"
proof -
  let ?st0 = "st\<lparr>enums := []\<rparr>"
  have s0: "enum_seen ?st0 = enum_seen st" "facets ?st0 = facets st" "enums ?st0 = []"
    by (simp_all add: enum_seen_def)
  note v = fold_processFacet_enum_view[of fs ?st0, unfolded s0]
  show ?thesis
    using v by (auto simp: collectFacets_level_def Let_def enum_groups_append enum_seen_def)
qed

lemma fold_level_enum_groups:
  "enum_groups (facets (fold collectFacets_level ls st)) =
     enum_groups (facets st) @ (if enum_seen st then [] else first_enum_level ls)"
proof (induction ls arbitrary: st)
  case Nil
  then show ?case by (simp add: first_enum_level_def)
next
  case (Cons l ls)
  show ?case
    using Cons.IH[of "collectFacets_level l st"] collectFacets_level_enum_view[of l st]
    by (simp add: first_enum_level_def split: if_splits)
qed

lemma recorded_after_Cons:
  "recorded_after seen k (f # fs) =
     (if localName f = k \<and> (\<not> seen \<or> isFixed f) then [f] else []) @
     recorded_after (seen \<or> localName f = k) k fs"
  by (auto simp: recorded_after_def recorded_of_kind_def)

lemma processFacet_kind_view:
  assumes "k \<noteq> ''enumeration''"
  shows "kind_nodes k (processFacet f st) =
           kind_nodes k st @ (if localName f = k \<and> (\<not> kind_seen k st \<or> isFixed f) then [f] else []) \<and>
         kind_seen k (processFacet f st) = (kind_seen k st \<or> localName f = k)"
proof (cases "isEnum f")
  case True
  with assms show ?thesis
    by (auto simp: processFacet_enum kind_nodes_def kind_seen_def isEnum_def)
next
  case False
  with assms show ?thesis
    by (auto simp: processFacet_other kind_nodes_def kind_seen_def facet_nodes_append)
qed

lemma fold_processFacet_kind_view:
  assumes "k \<noteq> ''enumeration''"
  shows "kind_nodes k (fold processFacet fs st) =
           kind_nodes k st @ recorded_after (kind_seen k st) k fs \<and>
         kind_seen k (fold processFacet fs st) = (kind_seen k st \<or> k \<in> localName ` set fs)"
proof (induction fs arbitrary: st)
  case Nil
  then show ?case by (simp add: recorded_after_def recorded_of_kind_def)
next
  case (Cons f fs)
  show ?case
    using Cons.IH[of "processFacet f st"] processFacet_kind_view[OF assms, of f st]
    by (auto simp: recorded_after_Cons)
qed

lemma recorded_after_append:
  "recorded_after seen k (fs @ gs) =
     recorded_after seen k fs @ recorded_after (seen \<or> k \<in> localName ` set fs) k gs"
proof (induction fs arbitrary: seen)
  case Nil
  then show ?case by (simp add: recorded_after_def recorded_of_kind_def)
next
  case (Cons f fs)
  have e: "(seen \<or> k = localName f \<or> k \<in> localName ` set fs) =
           (seen \<or> localName f = k \<or> k \<in> localName ` set fs)"
    by auto
  show ?case
    by (simp add: recorded_after_Cons Cons.IH e disj_assoc)
qed

lemma collectFacets_level_kind_view:
  assumes "k \<noteq> ''enumeration''"
  shows "kind_nodes k (collectFacets_level fs st) =
           kind_nodes k st @ recorded_after (kind_seen k st) k fs \<and>
         kind_seen k (collectFacets_level fs st) = (kind_seen k st \<or> k \<in> localName ` set fs)"
proof -
  let ?st0 = "st\<lparr>enums := []\<rparr>"
  have s0: "kind_seen k ?st0 = kind_seen k st" "kind_nodes k ?st0 = kind_nodes k st"
    by (simp_all add: kind_seen_def kind_nodes_def)
  note v = fold_processFacet_kind_view[OF assms, of fs ?st0, unfolded s0]
  show ?thesis
    using v assms
    by (auto simp: collectFacets_level_def Let_def kind_nodes_def kind_seen_def facet_nodes_append)
qed

lemma fold_level_kind_nodes:
  assumes "k \<noteq> ''enumeration''"
  shows "kind_nodes k (fold collectFacets_level ls st) =
           kind_nodes k st @ recorded_after (kind_seen k st) k (concat ls)"
proof (induction ls arbitrary: st)
  case Nil
  then show ?case by (simp add: recorded_after_def recorded_of_kind_def)
next
  case (Cons l ls)
  show ?case
    using Cons.IH[of "collectFacets_level l st"] collectFacets_level_kind_view[OF assms, of l st]
    by (simp add: recorded_after_append)
qed





lemma no_chain_from_cycle:
  "\<not> restriction_chain ops lib a bs \<and> \<not> restriction_chain ops lib b bs"
  if "findRestrictedType ops lib a = Some b" "findRestrictedType ops lib b = Some a"
  using that by (induction bs) auto

lemma fold_processFacet_no_enum_nodes:
  "\<forall>f \<in> set (facet_nodes (facets st)). \<not> isEnum f \<Longrightarrow>
   \<forall>f \<in> set (facet_nodes (facets (fold processFacet fs st))). \<not> isEnum f"
proof (induction fs arbitrary: st)
  case Nil
  then show ?case by simp
next
  case (Cons f fs)
  have "\<forall>g \<in> set (facet_nodes (facets (processFacet f st))). \<not> isEnum g"
    using Cons.prems
    by (cases "isEnum f") (auto simp: processFacet_enum processFacet_other facet_nodes_append)
  from Cons.IH[OF this] show ?case by simp
qed

lemma collectFacets_level_no_enum_nodes:
  assumes "\<forall>f \<in> set (facet_nodes (facets st)). \<not> isEnum f"
  shows "\<forall>f \<in> set (facet_nodes (facets (collectFacets_level fs st))). \<not> isEnum f"
proof -
  from assms have "\<forall>f \<in> set (facet_nodes (facets (st\<lparr>enums := []\<rparr>))). \<not> isEnum f" by simp
  from fold_processFacet_no_enum_nodes[OF this, of fs] show ?thesis
    by (auto simp: collectFacets_level_def Let_def facet_nodes_append)
qed

lemma fold_level_no_enum_nodes:
  "\<forall>f \<in> set (facet_nodes (facets st)). \<not> isEnum f \<Longrightarrow>
   \<forall>f \<in> set (facet_nodes (facets (fold collectFacets_level ls st))). \<not> isEnum f"
proof (induction ls arbitrary: st)
  case Nil
  then show ?case by simp
next
  case (Cons l ls)
  from Cons.IH[OF collectFacets_level_no_enum_nodes[OF Cons.prems, of l]] show ?case by simp
qed

lemma recorded_of_kind_all_fixed:
  "\<forall>f \<in> set fs. localName f = k \<longrightarrow> isFixed f \<Longrightarrow>
   recorded_of_kind k fs = filter (\<lambda>f. localName f = k) fs"
proof (induction fs)
  case Nil
  then show ?case by (simp add: recorded_of_kind_def)
next
  case (Cons f fs)
  then have i: "recorded_of_kind k fs = filter (\<lambda>f. localName f = k) fs" by simp
  show ?case
  proof (cases "localName f = k")
    case True
    have "filter (\<lambda>g. localName g = k \<and> isFixed g) fs = filter (\<lambda>g. localName g = k) fs"
      using Cons.prems by (auto intro: filter_cong)
    with True show ?thesis by (simp add: recorded_of_kind_def)
  next
    case False
    with i show ?thesis by (simp add: recorded_of_kind_def)
  qed
qed

lemma assertion_isFixed: "localName f = ''assertion'' \<Longrightarrow> isFixed f"
  by (simp add: isFixed_def isEnum_def)

section \<open>The sample schemas, evaluated\<close>

lemma sample_xsd_sel:
  "xsd_xs sample_xsd = XS"
  "xsd_xsi sample_xsd = XSI"
  "xsd_parseToDom sample_xsd text = basetypes_doc"
  "xsd_findElement sample_xsd t name = find (named ''element'' name) (sample_candidates t)"
  "xsd_findTypeByName sample_xsd d name =
     find (\<lambda>c. isTypeDef c \<and> getAttribute c ''name'' = Some name) (sample_candidates (Doc d))"
  "xsd_getTypeFromNodeAttr sample_xsd n typeAttr typeAttrNS =
     map_option sample_resolve (getAttributeNS n typeAttrNS typeAttr)"
  "xsd_getEmbeddedType sample_xsd n = find isTypeDef (children n)"
  "xsd_findRestrictingFacets sample_xsd n =
     (case find (\<lambda>c. localName c = ''restriction'') (children n) of
        None \<Rightarrow> [] | Some r \<Rightarrow> children r)"
  "xsd_getComplexTypeContent sample_xsd n =
     (case find (\<lambda>c. localName c = ''complexContent'') (children n) of
        None \<Rightarrow> n | Some c \<Rightarrow> c)"
  "xsd_getComplexTypeElements sample_xsd n =
     filter (\<lambda>c. localName c = ''element'') (descendants 3 n)"
  "xsd_getComplexTypeAsserts sample_xsd n =
     filter (\<lambda>c. localName c = ''assert'') (descendants 3 n)"
  "dom_ancestors sample_xsd = sample_ancestors"
  by (simp_all add: sample_xsd_def)

lemmas sample_nodes =
  XS_def XSI_def xs_node_def basetypes_doc_def
  td8_def ml5_def fd1_def en_a_def en_b_def td10_def ml9_def fd2_def en_c_def as1_def
  type_Amount_def type_Money_def type_decimal_def elem_q_def elem_c1_def elem_p1_def
  elem_p2_def assert_c_def assert_p_def type_Child_def type_Parent_def elem_order_def
  elem_untyped_def shop_doc_def type_A_def type_B_def cyclic_doc_def type_Money'_def
  other_doc_def nons_doc_def inst_order_def inst_c1_def inst_orderx_def inst_c1x_def
  inst_qx_def inst_nopex_def inst_zx_def

lemma xs_node_sel:
  "namespaceURI (xs_node l as kids) = Some XS"
  "localName (xs_node l as kids) = l"
  "children (xs_node l as kids) = kids"
  by (simp_all add: xs_node_def)

lemma sample_bucket_t: "getItem sample_lib (Some ''urn:t'') = Some [shop_doc, cyclic_doc]"
  by (simp add: getItem_def propertyKey_def sample_lib_def)

lemma sample_bucket_xs: "getItem sample_lib (Some XS) = Some [basetypes_doc]"
  by (simp add: getItem_def propertyKey_def sample_lib_def XS_def)

lemma sample_type_lookup:
  "findTypeByName sample_xsd sample_lib (Some ''urn:t'') ''Money'' = Some type_Money"
  "findTypeByName sample_xsd sample_lib (Some ''urn:t'') ''Parent'' = Some type_Parent"
  "findTypeByName sample_xsd sample_lib (Some ''urn:t'') ''Child'' = Some type_Child"
  "findTypeByName sample_xsd sample_lib (Some ''urn:t'') ''A'' = Some type_A"
  "findTypeByName sample_xsd sample_lib (Some ''urn:t'') ''B'' = Some type_B"
  "findTypeByName sample_xsd sample_lib (Some XS) ''decimal'' = Some type_decimal"
  by (simp_all add: findTypeByName_def sample_bucket_t sample_bucket_xs[unfolded XS_def]
        sample_xsd_sel
        sample_candidates_def sample_nodes isTypeDef_def getAttribute_def getAttributeNS_def)

lemma sample_restricted:
  "findRestrictedType sample_xsd sample_lib type_Amount = Some type_Money"
  "findRestrictedType sample_xsd sample_lib type_Money = Some type_decimal"
  "findRestrictedType sample_xsd sample_lib type_decimal = None"
  "findRestrictedType sample_xsd sample_lib type_A = Some type_B"
  "findRestrictedType sample_xsd sample_lib type_B = Some type_A"
proof -
  have b: "xsd_getTypeFromNodeAttr sample_xsd (xs_node ''restriction'' ((''base'', v) # as) kids)
             ''base'' None = Some (sample_resolve v)" for v as kids
    by (simp add: sample_xsd_sel xs_node_def getAttributeNS_def)
  have r: "sample_resolve ''Money'' = \<lparr>qn_namespaceURI = Some ''urn:t'', qn_name = ''Money''\<rparr>"
    "sample_resolve ''A'' = \<lparr>qn_namespaceURI = Some ''urn:t'', qn_name = ''A''\<rparr>"
    "sample_resolve ''B'' = \<lparr>qn_namespaceURI = Some ''urn:t'', qn_name = ''B''\<rparr>"
    "sample_resolve ''xs:decimal'' = \<lparr>qn_namespaceURI = Some XS, qn_name = ''decimal''\<rparr>"
    by (simp_all add: sample_resolve_def)
  note d = findRestrictedType_def findTypeDefinitionFromNodeAttr_def xs_node_sel
    sample_xsd_sel(1) b r sample_type_lookup
  show "findRestrictedType sample_xsd sample_lib type_Amount = Some type_Money"
    by (simp add: type_Amount_def d)
  show "findRestrictedType sample_xsd sample_lib type_Money = Some type_decimal"
    by (simp add: type_Money_def d)
  show "findRestrictedType sample_xsd sample_lib type_decimal = None"
    by (simp add: type_decimal_def d)
  show "findRestrictedType sample_xsd sample_lib type_A = Some type_B"
    by (simp add: type_A_def d)
  show "findRestrictedType sample_xsd sample_lib type_B = Some type_A"
    by (simp add: type_B_def d)
qed

lemma sample_chain:
  "restriction_chain sample_xsd sample_lib type_Amount [type_Money, type_decimal]"
  by (simp add: sample_restricted)

lemma sample_levels:
  "facet_levels sample_xsd [type_Amount, type_Money, type_decimal] =
     [[td8, ml5, fd1, en_a, en_b], [td10, ml9, fd2, en_c, as1], []]"
  by (simp add: facet_levels_def sample_xsd_sel type_Amount_def type_Money_def type_decimal_def
      xs_node_sel)

lemma sample_facet_kinds:
  "localName td8 = ''totalDigits''" "localName ml5 = ''maxLength''"
  "localName fd1 = ''fractionDigits''" "localName en_a = ''enumeration''"
  "localName en_b = ''enumeration''" "localName td10 = ''totalDigits''"
  "localName ml9 = ''maxLength''" "localName fd2 = ''fractionDigits''"
  "localName en_c = ''enumeration''" "localName as1 = ''assertion''"
  by (simp_all add: td8_def ml5_def fd1_def en_a_def en_b_def td10_def ml9_def fd2_def
      en_c_def as1_def xs_node_def)

lemma sample_facet_fixed:
  "getAttribute td8 ''fixed'' = Some ''true''" "getAttribute ml5 ''fixed'' = None"
  "getAttribute fd1 ''fixed'' = None" "getAttribute td10 ''fixed'' = None"
  "getAttribute ml9 ''fixed'' = None" "getAttribute fd2 ''fixed'' = Some ''true''"
  "getAttribute as1 ''fixed'' = None"
  by (simp_all add: td8_def ml5_def fd1_def td10_def ml9_def fd2_def as1_def xs_node_def
      getAttribute_def getAttributeNS_def)

lemma sample_collectFacets:
  "collectFacets sample_xsd sample_lib type_Amount =
     Some [Facet td8, Facet ml5, Facet fd1, Enums [en_a, en_b], Facet fd2, Facet as1]"
  unfolding collectFacets_def collectFacets_loop_chain[OF sample_chain] sample_levels
  by (simp add: collectFacets_level_def processFacet_def Let_def sample_facet_kinds
      sample_facet_fixed)

lemma sample_facets:
  "xsd_findRestrictingFacets sample_xsd type_Amount = [td8, ml5, fd1, en_a, en_b]"
  "xsd_findRestrictingFacets sample_xsd type_Money = [td10, ml9, fd2, en_c, as1]"
  by (simp_all add: sample_xsd_sel type_Amount_def type_Money_def xs_node_sel)

section \<open>Walks over a restriction chain: the claims\<close>

text \<open>
  C1, as the code has it. The walks have no bound, no visited set and no error of
  their own: \<open>findBaseTypeFor\<close> and \<open>collectFacets\<close> return exactly when the chain from
  the node ends after finitely many steps at a type with no resolvable restriction
  base, and \<open>findBaseTypeFor\<close> then returns the \<open>name\<close> attribute of that last type.
\<close>

theorem restriction_walk_returns_iff_chain_ends:
  "((findBaseTypeFor ops lib t \<noteq> None) = (\<exists>bs. restriction_chain ops lib t bs)) \<and>
   ((collectFacets ops lib t \<noteq> None) = (\<exists>bs. restriction_chain ops lib t bs)) \<and>
   (restriction_chain ops lib t bs \<longrightarrow>
      findBaseTypeFor ops lib t = Some (getAttribute (last (t # bs)) ''name''))"
proof (intro conjI impI)
  show "(findBaseTypeFor ops lib t \<noteq> None) = (\<exists>bs. restriction_chain ops lib t bs)"
  proof
    assume "findBaseTypeFor ops lib t \<noteq> None"
    then obtain r where "findBaseTypeFor_loop ops lib t None = Some r"
      by (auto simp: findBaseTypeFor_def)
    from findBaseTypeFor_loop_returns[OF this] show "\<exists>bs. restriction_chain ops lib t bs"
      by simp
  next
    assume "\<exists>bs. restriction_chain ops lib t bs"
    then obtain cs where "restriction_chain ops lib t cs" ..
    from findBaseTypeFor_chain[OF this] show "findBaseTypeFor ops lib t \<noteq> None" by simp
  qed
  show "(collectFacets ops lib t \<noteq> None) = (\<exists>bs. restriction_chain ops lib t bs)"
  proof
    assume "collectFacets ops lib t \<noteq> None"
    then obtain r where "collectFacets_loop ops lib (Some t)
        \<lparr>facets = [], enums = [], foundFacetTypes = []\<rparr> = Some r"
      by (auto simp: collectFacets_def)
    from collectFacets_loop_returns[OF this] show "\<exists>bs. restriction_chain ops lib t bs"
      by simp
  next
    assume "\<exists>bs. restriction_chain ops lib t bs"
    then obtain cs where "restriction_chain ops lib t cs" ..
    from collectFacets_loop_chain[OF this] show "collectFacets ops lib t \<noteq> None"
      by (simp add: collectFacets_def)
  qed
  assume "restriction_chain ops lib t bs"
  from findBaseTypeFor_chain[OF this]
  show "findBaseTypeFor ops lib t = Some (getAttribute (last (t # bs)) ''name'')" .
qed

theorem restriction_walk_returns_iff_chain_ends_witness:
  "restriction_chain sample_xsd sample_lib type_Amount [type_Money, type_decimal] \<and>
   findBaseTypeFor sample_xsd sample_lib type_Amount = Some (Some ''decimal'') \<and>
   collectFacets sample_xsd sample_lib type_Amount \<noteq> None"
proof -
  note t = restriction_walk_returns_iff_chain_ends
    [of sample_xsd sample_lib type_Amount "[type_Money, type_decimal]"]
  have n: "getAttribute type_decimal ''name'' = Some ''decimal''"
    by (simp add: type_decimal_def xs_node_def getAttribute_def getAttributeNS_def)
  from t sample_chain have "findBaseTypeFor sample_xsd sample_lib type_Amount = Some (Some ''decimal'')"
    by (simp add: n)
  moreover from t sample_chain have "collectFacets sample_xsd sample_lib type_Amount \<noteq> None"
    by blast
  ultimately show ?thesis using sample_chain by simp
qed

text \<open>
  C1 as stated fails: on the sample types \<open>A\<close> and \<open>B\<close>, each a restriction of the
  other, neither walk returns anything, an error included.
\<close>

theorem cyclic_restriction_counterexample:
  "findRestrictedType sample_xsd sample_lib type_A = Some type_B \<and>
   findRestrictedType sample_xsd sample_lib type_B = Some type_A \<and>
   findBaseTypeFor sample_xsd sample_lib type_A = None \<and>
   collectFacets sample_xsd sample_lib type_A = None"
proof -
  note c = no_chain_from_cycle[OF sample_restricted(4) sample_restricted(5)]
  have "findBaseTypeFor sample_xsd sample_lib type_A = None"
  proof (rule ccontr)
    assume "findBaseTypeFor sample_xsd sample_lib type_A \<noteq> None"
    then obtain r where "findBaseTypeFor_loop sample_xsd sample_lib type_A None = Some r"
      by (auto simp: findBaseTypeFor_def)
    from findBaseTypeFor_loop_returns[OF this] c show False by simp
  qed
  moreover have "collectFacets sample_xsd sample_lib type_A = None"
  proof (rule ccontr)
    assume "collectFacets sample_xsd sample_lib type_A \<noteq> None"
    then obtain r where "collectFacets_loop sample_xsd sample_lib (Some type_A)
        \<lparr>facets = [], enums = [], foundFacetTypes = []\<rparr> = Some r"
      by (auto simp: collectFacets_def)
    from collectFacets_loop_returns[OF this] c show False by simp
  qed
  ultimately show ?thesis by (simp add: sample_restricted)
qed

text \<open>
  C2, as the code has it. Once a level has contributed its enumeration group, the name
  \<open>enumeration\<close> is among the found kinds and every enumeration facet of a farther
  level is dropped. So the result holds at most one group: the enumeration facets, in
  order, of the nearest level that has any. Levels without enumeration facets add no
  group, and an enumeration facet is never an entry of its own.
\<close>

theorem collectFacets_enumerations_of_nearest_level:
  assumes "restriction_chain ops lib t bs"
  shows "\<exists>r. collectFacets ops lib t = Some r \<and>
           enum_groups r = first_enum_level (facet_levels ops (t # bs)) \<and>
           (\<forall>f \<in> set (facet_nodes r). \<not> isEnum f)"
proof -
  let ?st0 = "\<lparr>facets = [], enums = [], foundFacetTypes = []\<rparr>"
  let ?r = "facets (fold collectFacets_level (facet_levels ops (t # bs)) ?st0)"
  have "collectFacets ops lib t = Some ?r"
    unfolding collectFacets_def by (rule collectFacets_loop_chain[OF assms])
  moreover have "enum_groups ?r = first_enum_level (facet_levels ops (t # bs))"
    by (simp add: fold_level_enum_groups enum_seen_def)
  moreover have "\<forall>f \<in> set (facet_nodes ?r). \<not> isEnum f"
    by (rule fold_level_no_enum_nodes) simp
  ultimately show ?thesis by blast
qed

theorem collectFacets_enumerations_of_nearest_level_witness:
  "restriction_chain sample_xsd sample_lib type_Amount [type_Money, type_decimal] \<and>
   (\<exists>r. collectFacets sample_xsd sample_lib type_Amount = Some r \<and>
        enum_groups r = [[en_a, en_b]])"
proof -
  have "first_enum_level (facet_levels sample_xsd [type_Amount, type_Money, type_decimal]) =
      [[en_a, en_b]]"
    by (simp add: sample_levels first_enum_level_def isEnum_def sample_facet_kinds)
  with collectFacets_enumerations_of_nearest_level[OF sample_chain] sample_chain
  show ?thesis by auto
qed

text \<open>
  C2 as stated fails: the sample type \<open>Amount\<close> restricts \<open>Money\<close>, both declare
  enumeration facets, and the enumeration \<open>c\<close> of \<open>Money\<close> is in no group of the result.
\<close>

theorem enumerations_accumulate_counterexample:
  "findRestrictedType sample_xsd sample_lib type_Amount = Some type_Money \<and>
   xsd_findRestrictingFacets sample_xsd type_Amount = [td8, ml5, fd1, en_a, en_b] \<and>
   xsd_findRestrictingFacets sample_xsd type_Money = [td10, ml9, fd2, en_c, as1] \<and>
   localName en_c = ''enumeration'' \<and>
   enum_groups (the (collectFacets sample_xsd sample_lib type_Amount)) = [[en_a, en_b]] \<and>
   en_c \<noteq> en_a \<and> en_c \<noteq> en_b"
proof -
  have "en_c \<noteq> en_a" "en_c \<noteq> en_b"
    by (simp_all add: en_a_def en_b_def en_c_def xs_node_def)
  then show ?thesis
    by (simp add: sample_collectFacets sample_restricted sample_facet_kinds sample_facets)
qed

text \<open>
  C5, as the code has it. Whether a facet is recorded depends on the facet itself, not
  on the nearer one of its kind: of every kind other than \<open>enumeration\<close> the result
  holds the first facet met on the walk, then exactly those later facets of the kind
  that are themselves fixed (\<open>fixed="true"\<close>, or an assertion). So a fixed facet of an
  ancestor stands beside the nearer facet of its kind, an unfixed facet of an ancestor
  is dropped whether the nearer one is fixed or not, and every assertion is recorded.
\<close>

theorem collectFacets_first_of_kind_then_fixed:
  assumes "restriction_chain ops lib t bs" and "k \<noteq> ''enumeration''"
  shows "\<exists>r. collectFacets ops lib t = Some r \<and>
           filter (\<lambda>f. localName f = k) (facet_nodes r) =
             recorded_of_kind k (concat (facet_levels ops (t # bs))) \<and>
           filter (\<lambda>f. localName f = ''assertion'') (facet_nodes r) =
             filter (\<lambda>f. localName f = ''assertion'') (concat (facet_levels ops (t # bs)))"
proof -
  let ?st0 = "\<lparr>facets = [], enums = [], foundFacetTypes = []\<rparr>"
  let ?all = "concat (facet_levels ops (t # bs))"
  let ?r = "facets (fold collectFacets_level (facet_levels ops (t # bs)) ?st0)"
  have r: "collectFacets ops lib t = Some ?r"
    unfolding collectFacets_def by (rule collectFacets_loop_chain[OF assms(1)])
  have v: "filter (\<lambda>f. localName f = j) (facet_nodes ?r) = recorded_of_kind j ?all"
    if "j \<noteq> ''enumeration''" for j
    using fold_level_kind_nodes[OF that, of "facet_levels ops (t # bs)" ?st0]
    by (simp add: kind_nodes_def kind_seen_def recorded_after_def)
  have "recorded_of_kind ''assertion'' ?all = filter (\<lambda>f. localName f = ''assertion'') ?all"
    by (rule recorded_of_kind_all_fixed) (simp add: assertion_isFixed)
  with v[of "''assertion''"]
  have "filter (\<lambda>f. localName f = ''assertion'') (facet_nodes ?r) =
      filter (\<lambda>f. localName f = ''assertion'') ?all"
    by simp
  with r v[OF assms(2)] show ?thesis by blast
qed

theorem collectFacets_first_of_kind_then_fixed_witness:
  "restriction_chain sample_xsd sample_lib type_Amount [type_Money, type_decimal] \<and>
   ''fractionDigits'' \<noteq> ''enumeration'' \<and>
   getAttribute fd1 ''fixed'' = None \<and> getAttribute fd2 ''fixed'' = Some ''true'' \<and>
   (\<exists>r. collectFacets sample_xsd sample_lib type_Amount = Some r \<and>
        filter (\<lambda>f. localName f = ''fractionDigits'') (facet_nodes r) = [fd1, fd2] \<and>
        filter (\<lambda>f. localName f = ''assertion'') (facet_nodes r) = [as1])"
proof -
  have k: "''fractionDigits'' \<noteq> ''enumeration''" by simp
  have a: "recorded_of_kind ''fractionDigits''
      (concat (facet_levels sample_xsd [type_Amount, type_Money, type_decimal])) = [fd1, fd2]"
    by (simp add: sample_levels recorded_of_kind_def isFixed_def isEnum_def sample_facet_kinds
        sample_facet_fixed)
  have b: "filter (\<lambda>f. localName f = ''assertion'')
      (concat (facet_levels sample_xsd [type_Amount, type_Money, type_decimal])) = [as1]"
    by (simp add: sample_levels sample_facet_kinds)
  from collectFacets_first_of_kind_then_fixed[OF sample_chain k] a b sample_chain
  show ?thesis by (auto simp: sample_facet_fixed)
qed

text \<open>
  C5 as stated fails: the sample type \<open>Amount\<close> fixes \<open>totalDigits\<close>, its base \<open>Money\<close>
  declares \<open>totalDigits\<close> unfixed, and only the facet of \<open>Amount\<close> is recorded.
\<close>

theorem fixed_derived_facet_counterexample:
  "findRestrictedType sample_xsd sample_lib type_Amount = Some type_Money \<and>
   td8 \<in> set (xsd_findRestrictingFacets sample_xsd type_Amount) \<and>
   td10 \<in> set (xsd_findRestrictingFacets sample_xsd type_Money) \<and>
   localName td8 = ''totalDigits'' \<and> localName td10 = ''totalDigits'' \<and>
   getAttribute td8 ''fixed'' = Some ''true'' \<and> getAttribute td10 ''fixed'' = None \<and>
   Facet td8 \<in> set (the (collectFacets sample_xsd sample_lib type_Amount)) \<and>
   Facet td10 \<notin> set (the (collectFacets sample_xsd sample_lib type_Amount))"
proof -
  have "td10 \<notin> {td8, ml5, fd1, fd2, as1}"
    by (simp add: td8_def ml5_def fd1_def fd2_def as1_def td10_def xs_node_def)
  then show ?thesis
    by (simp add: sample_collectFacets sample_restricted sample_facet_kinds sample_facet_fixed
        sample_facets)
qed

section \<open>Extension chains and instance nodes: lemmas\<close>

lemma walk_collectParent:
  assumes "\<forall>p \<in> set inner. xsd_getTypeFromNodeAttr ops p ''type'' (Some (xsd_xsi ops)) = None"
    and "xsd_getTypeFromNodeAttr ops outer ''type'' (Some (xsd_xsi ops)) \<noteq> None"
  shows "getFirstFilteredAncestor_walk (inner @ outer # upper) (collectParent ops) acc =
           (Some outer, acc @ inner @ [outer])"
  using assms
proof (induction inner arbitrary: acc)
  case Nil
  then have "collectParent ops outer acc = (True, acc @ [outer])"
    by (simp add: collectParent_def)
  then show ?case by simp
next
  case (Cons p ps)
  from Cons.prems have c: "collectParent ops p acc = (False, acc @ [p])"
    by (simp add: collectParent_def)
  from Cons.prems
  have "getFirstFilteredAncestor_walk (ps @ outer # upper) (collectParent ops) (acc @ [p]) =
      (Some outer, (acc @ [p]) @ ps @ [outer])"
    by (intro Cons.IH) simp_all
  with c show ?case by simp
qed

lemma each_descend:
  "descend ops lib d (map localName ps) = Some d' \<Longrightarrow>
   findElementForXmlNode_each ops lib ps (Some d) = Inr (Some d')"
proof (induction ps arbitrary: d)
  case Nil
  then show ?case by simp
next
  case (Cons p ps)
  from Cons.prems obtain x where x: "findXsdSubNode ops lib (Some d) (localName p) = Inr (Some x)"
    and r: "descend ops lib x (map localName ps) = Some d'"
    by (auto split: sum.splits option.splits)
  from Cons.IH[OF r] x show ?case by simp
qed



section \<open>Extension chains and instance nodes: the claims\<close>



text \<open>
  C6, as the code has it. The walk upwards collects the ancestors up to the nearest one
  that carries an \<open>xsi:type\<close>. That ancestor, the outermost collected, is resolved from
  its \<open>xsi:type\<close> by \<open>findTypeDefinitionFromNodeAttr\<close>; no root element is looked up.
  While each step finds a definition, every further ancestor descends one level by its
  local name through \<open>findXsdSubNode\<close>, and the result is the last descent, by the
  local name of the node itself.
\<close>

theorem findElementForXmlNode_from_xsi_type:
  assumes "dom_ancestors ops n = inner @ outer # upper"
    and "\<forall>p \<in> set inner. xsd_getTypeFromNodeAttr ops p ''type'' (Some (xsd_xsi ops)) = None"
    and "findTypeDefinitionFromNodeAttr ops lib outer ''type'' (Some (xsd_xsi ops)) = Some d0"
    and "descend ops lib d0 (map localName (rev inner)) = Some d"
  shows "findElementForXmlNode ops lib n = findXsdSubNode ops lib (Some d) (localName n)"
proof -
  from assms(3) have t: "xsd_getTypeFromNodeAttr ops outer ''type'' (Some (xsd_xsi ops)) \<noteq> None"
    by (auto simp: findTypeDefinitionFromNodeAttr_def split: option.splits)
  have p: "snd (getFirstFilteredAncestor ops n (collectParent ops) []) = inner @ [outer]"
    by (simp add: getFirstFilteredAncestor_def assms(1) walk_collectParent[OF assms(2) t])
  have "findElementForXmlNode_each ops lib (rev (inner @ [outer])) None =
      findElementForXmlNode_each ops lib (rev inner) (Some d0)"
    by (simp add: assms(3))
  also have "\<dots> = Inr (Some d)"
    by (rule each_descend[OF assms(4)])
  finally show ?thesis
    by (simp add: findElementForXmlNode_def p)
qed

theorem findElementForXmlNode_from_xsi_type_witness:
  "dom_ancestors sample_xsd inst_qx = [inst_c1x] @ inst_orderx # [] \<and>
   xsd_getTypeFromNodeAttr sample_xsd inst_c1x ''type'' (Some (xsd_xsi sample_xsd)) = None \<and>
   findTypeDefinitionFromNodeAttr sample_xsd sample_lib inst_orderx ''type''
     (Some (xsd_xsi sample_xsd)) = Some type_Child \<and>
   descend sample_xsd sample_lib type_Child (map localName (rev [inst_c1x])) = Some elem_c1 \<and>
   findXsdSubNode sample_xsd sample_lib (Some elem_c1) (localName inst_qx) = Inr (Some elem_q) \<and>
   findElementForXmlNode sample_xsd sample_lib inst_qx = Inr (Some elem_q)"
proof -
  have a: "dom_ancestors sample_xsd inst_qx = [inst_c1x] @ inst_orderx # []"
    by (simp add: sample_xsd_sel sample_ancestors_def inst_qx_def inst_c1_def inst_c1x_def)
  have b0: "xsd_getTypeFromNodeAttr sample_xsd inst_c1x ''type'' (Some (xsd_xsi sample_xsd)) = None"
    by (simp add: sample_xsd_sel inst_c1x_def getAttributeNS_def)
  then have b: "\<forall>p \<in> set [inst_c1x].
      xsd_getTypeFromNodeAttr sample_xsd p ''type'' (Some (xsd_xsi sample_xsd)) = None"
    by simp
  have c: "findTypeDefinitionFromNodeAttr sample_xsd sample_lib inst_orderx ''type''
      (Some (xsd_xsi sample_xsd)) = Some type_Child"
    by (simp add: findTypeDefinitionFromNodeAttr_def sample_xsd_sel inst_orderx_def
        getAttributeNS_def sample_resolve_def sample_type_lookup)
  have s1: "findXsdSubNode sample_xsd sample_lib (Some type_Child) ''c1'' = Inr (Some elem_c1)"
    by (simp add: findXsdSubNode_def sample_xsd_sel sample_candidates_def named_def
        getAttribute_def getAttributeNS_def type_Child_def elem_c1_def elem_q_def assert_c_def
        xs_node_def eval_nat_numeral)
  have d: "descend sample_xsd sample_lib type_Child (map localName (rev [inst_c1x])) = Some elem_c1"
    by (simp add: s1 inst_c1x_def)
  have e: "findXsdSubNode sample_xsd sample_lib (Some elem_c1) (localName inst_qx) = Inr (Some elem_q)"
    by (simp add: findXsdSubNode_def findTypeDefinitionFromNodeAttr_def sample_xsd_sel
        sample_candidates_def named_def getAttribute_def getAttributeNS_def elem_c1_def
        elem_q_def inst_qx_def xs_node_def eval_nat_numeral)
  from findElementForXmlNode_from_xsi_type[OF a b c d] e
  have "findElementForXmlNode sample_xsd sample_lib inst_qx = Inr (Some elem_q)" by simp
  with a b0 c d e show ?thesis by blast
qed

text \<open>
  C6 as stated fails: the sample instance node \<open>c1\<close> lies under the root \<open>order\<close>, no
  ancestor carries an \<open>xsi:type\<close>, the root element \<open>order\<close> is declared in the library
  and its type declares \<open>c1\<close>; the code makes no root element lookup and raises.
\<close>

theorem root_element_lookup_counterexample:
  "dom_ancestors sample_xsd inst_c1 = [inst_order] \<and>
   xsd_getTypeFromNodeAttr sample_xsd inst_order ''type'' (Some (xsd_xsi sample_xsd)) = None \<and>
   findElement sample_xsd sample_lib (Some ''urn:t'') (localName inst_order) = Some elem_order \<and>
   findXsdSubNode sample_xsd sample_lib (Some elem_order) (localName inst_c1) =
     Inr (Some elem_c1) \<and>
   findElementForXmlNode sample_xsd sample_lib inst_c1 = Inl TypeError"
proof -
  have a: "dom_ancestors sample_xsd inst_c1 = [inst_order]"
    by (simp add: sample_xsd_sel sample_ancestors_def)
  have b: "xsd_getTypeFromNodeAttr sample_xsd inst_order ''type'' (Some (xsd_xsi sample_xsd)) = None"
    by (simp add: sample_xsd_sel inst_order_def getAttributeNS_def)
  have c: "findElement sample_xsd sample_lib (Some ''urn:t'') (localName inst_order) = Some elem_order"
    by (simp add: findElement_def sample_bucket_t sample_xsd_sel sample_candidates_def named_def
        getAttribute_def getAttributeNS_def sample_nodes)
  have t: "findTypeDefinitionFromNodeAttr sample_xsd sample_lib elem_order ''type'' None =
      Some type_Child"
    by (simp add: findTypeDefinitionFromNodeAttr_def sample_xsd_sel elem_order_def xs_node_def
        getAttributeNS_def sample_resolve_def sample_type_lookup)
  have k: "localName elem_order = ''element''" by (simp add: elem_order_def xs_node_sel)
  have d: "findXsdSubNode sample_xsd sample_lib (Some elem_order) (localName inst_c1) =
      Inr (Some elem_c1)"
    by (simp add: findXsdSubNode_def k t)
       (simp add: sample_xsd_sel sample_candidates_def named_def getAttribute_def
          getAttributeNS_def type_Child_def elem_c1_def elem_q_def assert_c_def inst_c1_def
          xs_node_def eval_nat_numeral)
  have e: "findElementForXmlNode sample_xsd sample_lib inst_c1 = Inl TypeError"
    by (simp add: findElementForXmlNode_def getFirstFilteredAncestor_def a collectParent_def b
        findTypeDefinitionFromNodeAttr_def findXsdSubNode_def)
  from a b c d e show ?thesis by blast
qed

text \<open>
  C3, at the failing inputs. \<open>findElementType\<close> on the sample element \<open>untyped\<close>, which
  has neither an embedded type nor a \<open>type\<close> attribute, reads a property of null and
  raises; and \<open>findElementForXmlNode\<close> on the sample node \<open>z\<close>, whose parent \<open>nope\<close> is
  not declared in the type named by the \<open>xsi:type\<close> of the root, raises after the
  descent step that found nothing.
\<close>

theorem lookup_raises_on_not_found:
  "xsd_getEmbeddedType sample_xsd elem_untyped = None \<and>
   xsd_getTypeFromNodeAttr sample_xsd elem_untyped ''type'' None = None \<and>
   findElementType sample_xsd sample_lib elem_untyped = Inl TypeError \<and>
   dom_ancestors sample_xsd inst_zx = [inst_nopex, inst_orderx] \<and>
   findTypeDefinitionFromNodeAttr sample_xsd sample_lib inst_orderx ''type''
     (Some (xsd_xsi sample_xsd)) = Some type_Child \<and>
   findXsdSubNode sample_xsd sample_lib (Some type_Child) (localName inst_nopex) = Inr None \<and>
   findElementForXmlNode sample_xsd sample_lib inst_zx = Inl TypeError"
proof -
  have a: "xsd_getEmbeddedType sample_xsd elem_untyped = None"
    by (simp add: sample_xsd_sel elem_untyped_def xs_node_sel)
  have b: "xsd_getTypeFromNodeAttr sample_xsd elem_untyped ''type'' None = None"
    by (simp add: sample_xsd_sel elem_untyped_def xs_node_def getAttributeNS_def)
  have c: "findElementType sample_xsd sample_lib elem_untyped = Inl TypeError"
    by (simp add: findElementType_def a b)
  have d: "dom_ancestors sample_xsd inst_zx = [inst_nopex, inst_orderx]"
    by (simp add: sample_xsd_sel sample_ancestors_def inst_zx_def inst_c1_def inst_c1x_def
        inst_qx_def)
  have e: "findTypeDefinitionFromNodeAttr sample_xsd sample_lib inst_orderx ''type''
      (Some (xsd_xsi sample_xsd)) = Some type_Child"
    by (simp add: findTypeDefinitionFromNodeAttr_def sample_xsd_sel inst_orderx_def
        getAttributeNS_def sample_resolve_def sample_type_lookup)
  have f: "findXsdSubNode sample_xsd sample_lib (Some type_Child) (localName inst_nopex) = Inr None"
    by (simp add: findXsdSubNode_def sample_xsd_sel sample_candidates_def named_def
        getAttribute_def getAttributeNS_def type_Child_def elem_c1_def elem_q_def assert_c_def
        inst_nopex_def xs_node_def eval_nat_numeral)
  have n: "xsd_getTypeFromNodeAttr sample_xsd inst_nopex ''type'' (Some (xsd_xsi sample_xsd)) = None"
    by (simp add: sample_xsd_sel inst_nopex_def getAttributeNS_def)
  have x: "xsd_getTypeFromNodeAttr sample_xsd inst_orderx ''type'' (Some (xsd_xsi sample_xsd)) \<noteq> None"
    by (simp add: sample_xsd_sel inst_orderx_def getAttributeNS_def)
  have g: "findElementForXmlNode sample_xsd sample_lib inst_zx = Inl TypeError"
    using n x
    by (simp add: findElementForXmlNode_def getFirstFilteredAncestor_def d collectParent_def e f
        findXsdSubNode_def[of _ _ None])
  from a b c d e f g show ?thesis by blast
qed

end
